theory Spec2Isabelle
  imports Main "HOL-Library.Multiset" "HOL-Library.AList"
begin

section \<open>Common data\<close>

text \<open>
  Exceptions of the program are values. \<open>IndexError\<close>, \<open>KeyError\<close>, \<open>ValueError\<close>,
  \<open>TypeError\<close> and \<open>RuntimeError\<close> are Python's own; \<open>IncompleteReadError\<close> is what
  \<^verbatim>\<open>StreamReader.readuntil\<close> raises at the end of the stream, \<open>UnicodeDecodeError\<close> what
  \<^verbatim>\<open>bytes.decode\<close> raises, \<open>CancelledError\<close> what a cancelled task sees at its
  \<^verbatim>\<open>await\<close>; \<open>ServerDisconnection\<close>, \<open>MultipleConnectionError\<close> and
  \<open>PaidProgramDisconnection\<close> are the classes declared inside \<^verbatim>\<open>FC2WebSocket\<close>
  (lines 163-170). \<open>EmptyManifestError\<close> is the name that the description of variant
  selection gives to its failure: the program declares no class of this name and no line
  of it raises one; it is a value of the type so that theorems can state this.
\<close>

datatype error =
    IndexError
  | KeyError
  | ValueError
  | TypeError
  | IncompleteReadError
  | RuntimeError
  | UnicodeDecodeError
  | CancelledError
  | EmptyManifestError
  | ServerDisconnection
  | MultipleConnectionError
  | PaidProgramDisconnection

text \<open>\<^verbatim>\<open>isinstance(e, FC2WebSocket.ServerDisconnection)\<close>: the class and its two subclasses.\<close>

fun is_ServerDisconnection :: "error \<Rightarrow> bool" where
  "is_ServerDisconnection ServerDisconnection = True"
| "is_ServerDisconnection MultipleConnectionError = True"
| "is_ServerDisconnection PaidProgramDisconnection = True"
| "is_ServerDisconnection _ = False"

text \<open>Sequencing of fallible steps: the first exception raised is the result.\<close>

definition bind_err :: "error + 'a \<Rightarrow> ('a \<Rightarrow> error + 'b) \<Rightarrow> error + 'b" where
  "bind_err r f = (case r of Inl e \<Rightarrow> Inl e | Inr x \<Rightarrow> f x)"

text \<open>\<^verbatim>\<open>d[k]\<close> on a dict kept as an association list in insertion order.\<close>

definition dict_get :: "('k \<times> 'v) list \<Rightarrow> 'k \<Rightarrow> error + 'v" where
  "dict_get d k = (case map_of d k of None \<Rightarrow> Inl KeyError | Some v \<Rightarrow> Inr v)"

section \<open>Variant selection (class FC2LiveDL)\<close>

text \<open>One entry of a manifest list: \<^verbatim>\<open>{'mode': ..., 'url': ...}\<close>.\<close>

record playlist =
  mode :: int
  url :: string

text \<open>
  The manifest \<^verbatim>\<open>hls_info\<close>: a dict from key names to lists of entries; a key may be
  absent.
\<close>

type_synonym hls_info = "string \<rightharpoonup> playlist list"

text \<open>The two entries of \<^verbatim>\<open>FC2LiveDL.params\<close> that selection reads.\<close>

record params =
  quality :: string
  latency :: string

definition STREAM_QUALITY :: "(string \<times> int) list" where
  "STREAM_QUALITY =
     [(''150Kbps'', 10), (''400Kbps'', 20), (''1.2Mbps'', 30), (''2Mbps'', 40),
      (''3Mbps'', 50), (''sound'', 90)]"

definition STREAM_LATENCY :: "(string \<times> int) list" where
  "STREAM_LATENCY = [(''low'', 0), (''high'', 1), (''mid'', 2)]"

definition default_params :: params where
  "default_params = \<lparr>quality = ''3Mbps'', latency = ''mid''\<rparr>"

text \<open>\<^verbatim>\<open>_get_mode\<close> (lines 397-401).\<close>

definition get_mode :: "params \<Rightarrow> error + int" where
  "get_mode ps =
     bind_err (dict_get STREAM_QUALITY (quality ps)) (\<lambda>q.
     bind_err (dict_get STREAM_LATENCY (latency ps)) (\<lambda>l.
     Inr (0 + q + l)))"

text \<open>
  \<^verbatim>\<open>list.index(needle)\<close>: the position of the first equal element, \<open>ValueError\<close> when
  there is none.
\<close>

fun list_index :: "'a list \<Rightarrow> 'a \<Rightarrow> error + nat" where
  "list_index [] y = Inl ValueError"
| "list_index (x # xs) y =
     (if x = y then Inr 0 else bind_err (list_index xs y) (\<lambda>i. Inr (Suc i)))"

text \<open>\<^verbatim>\<open>xs[i]\<close> for a non-negative index.\<close>

definition list_get :: "'a list \<Rightarrow> nat \<Rightarrow> error + 'a" where
  "list_get xs i = (if i < length xs then Inr (xs ! i) else Inl IndexError)"

text \<open>The local function \<^verbatim>\<open>dict_search\<close> of \<^verbatim>\<open>_format_mode\<close> (lines 404-405).\<close>

definition dict_search :: "('k \<times> 'v) list \<Rightarrow> 'v \<Rightarrow> error + 'k" where
  "dict_search haystack needle =
     bind_err (list_index (map snd haystack) needle) (\<lambda>i. list_get (map fst haystack) i)"

text \<open>
  \<^verbatim>\<open>_format_mode\<close> (lines 403-408). Python's \<^verbatim>\<open>%\<close> and \<^verbatim>\<open>//\<close> on integers are HOL's
  \<open>mod\<close> and \<open>div\<close> (both round towards minus infinity).
\<close>

definition format_mode :: "int \<Rightarrow> error + (string \<times> string)" where
  "format_mode m =
     bind_err (dict_search STREAM_LATENCY (m mod 10)) (\<lambda>l.
     bind_err (dict_search STREAM_QUALITY (m div 10 * 10)) (\<lambda>q.
     Inr (q, l)))"

text \<open>
  \<^verbatim>\<open>_merge_playlists\<close> (lines 390-395): the loop over the three key names, with the
  list \<^verbatim>\<open>playlists\<close> as its state.
\<close>

definition merge_names :: "string list" where
  "merge_names = [''playlists'', ''playlists_high_latency'', ''playlists_middle_latency'']"

definition merge_step :: "hls_info \<Rightarrow> string \<Rightarrow> playlist list \<Rightarrow> playlist list" where
  "merge_step h n playlists = (case h n of None \<Rightarrow> playlists | Some l \<Rightarrow> playlists @ l)"

definition merge_playlists :: "hls_info \<Rightarrow> playlist list" where
  "merge_playlists h = fold (merge_step h) merge_names []"

text \<open>The local function \<^verbatim>\<open>key_map\<close> of \<^verbatim>\<open>_sort_playlists\<close> (lines 378-382).\<close>

definition key_map :: "playlist \<Rightarrow> int" where
  "key_map p = (if mode p \<ge> 90 then mode p - 90 else mode p)"

text \<open>
  Python's built-in \<^verbatim>\<open>sorted(xs, key=f, reverse=r)\<close>. The sort is the stable insertion
  of \<open>sort_key\<close>; with \<^verbatim>\<open>reverse=True\<close> CPython reverses the list, sorts it and reverses
  the result, which keeps elements of equal key in their original order.
\<close>

definition sorted_py :: "('a \<Rightarrow> int) \<Rightarrow> bool \<Rightarrow> 'a list \<Rightarrow> 'a list" where
  "sorted_py f reverse xs = (if reverse then rev (sort_key f (rev xs)) else sort_key f xs)"

text \<open>\<^verbatim>\<open>_sort_playlists\<close> (lines 377-388).\<close>

definition sort_playlists :: "playlist list \<Rightarrow> playlist list" where
  "sort_playlists merged_playlists = sorted_py key_map True merged_playlists"

text \<open>
  \<^verbatim>\<open>_get_playlist_or_best\<close> (lines 366-375). The loop keeps the local \<^verbatim>\<open>playlist\<close>,
  \<open>None\<close> at the start; \<^verbatim>\<open>sorted_playlists[0]\<close> raises \<open>IndexError\<close> on the empty list.
\<close>

definition select_step :: "int \<Rightarrow> playlist \<Rightarrow> playlist option \<Rightarrow> playlist option" where
  "select_step m p acc = (if mode p = m then Some p else acc)"

definition get_playlist_or_best :: "playlist list \<Rightarrow> int \<Rightarrow> error + playlist" where
  "get_playlist_or_best sorted_playlists m =
     (case fold (select_step m) sorted_playlists None of
        None \<Rightarrow> list_get sorted_playlists 0
      | Some p \<Rightarrow> Inr p)"

text \<open>\<^verbatim>\<open>_get_hls_url\<close> (lines 359-364).\<close>

definition get_hls_url :: "params \<Rightarrow> hls_info \<Rightarrow> error + string" where
  "get_hls_url ps h =
     bind_err (get_mode ps) (\<lambda>m.
     bind_err (get_playlist_or_best (sort_playlists (merge_playlists h)) m) (\<lambda>p.
     Inr (url p)))"

section \<open>Values, frames and the logger (class Logger)\<close>

text \<open>
  JSON values as \<^verbatim>\<open>json\<close> decodes them (numbers are the integers; the program compares
  them with integer literals only).
\<close>

datatype json =
    JNull
  | JBool bool
  | JNum int
  | JStr string
  | JArr "json list"
  | JObj "(string \<times> json) list"

text \<open>
  One frame of the control channel, \<^verbatim>\<open>{'name': ..., 'arguments': ..., 'id': ...}\<close>, with
  the three keys the program reads.
\<close>

record message =
  m_name :: string
  m_arguments :: json
  m_id :: int

text \<open>A value of the \<^verbatim>\<open>stats\<close> dict: the defaults hold integers and strings.\<close>

datatype stat = SInt int | SStr string

text \<open>
  What the program prints is kept as the list of \<^verbatim>\<open>print\<close> calls, each with its
  arguments. \<^verbatim>\<open>Logger.loglevel\<close> is the class attribute of line 42; nothing assigns it.
\<close>

datatype log_item = LStr string | LStat stat | LMessage message | LJson json

type_synonym console = "log_item list list"

definition LOGLEVEL_INFO :: nat where "LOGLEVEL_INFO = 3"
definition LOGLEVEL_DEBUG :: nat where "LOGLEVEL_DEBUG = 4"
definition LOGLEVEL_TRACE :: nat where "LOGLEVEL_TRACE = 5"

definition loglevel :: nat where "loglevel = LOGLEVEL_INFO"

definition trace :: "log_item list \<Rightarrow> console \<Rightarrow> console" where
  "trace args out = (if loglevel \<ge> LOGLEVEL_TRACE then out @ [args] else out)"

definition debug :: "log_item list \<Rightarrow> console \<Rightarrow> console" where
  "debug args out = (if loglevel \<ge> LOGLEVEL_DEBUG then out @ [args] else out)"

definition infol :: "log_item list \<Rightarrow> console \<Rightarrow> console" where
  "infol args out = (if loglevel \<ge> LOGLEVEL_INFO then out @ [args] else out)"

definition endl :: "console \<Rightarrow> console" where
  "endl out = (if loglevel \<ge> LOGLEVEL_INFO then out @ [[LStr []]] else out)"

section \<open>Recorder status (class LiveStreamRecorder)\<close>

type_synonym stats = "(string \<times> stat) list"

definition default_stats :: stats where
  "default_stats =
     [(''frame'', SInt 0), (''fps'', SInt 0), (''q'', SInt 0), (''size'', SStr ''0kB''),
      (''time'', SStr ''00:00:00.00''), (''bitrate'', SStr ''N/A''), (''speed'', SStr ''N/A'')]"

text \<open>
  \<^verbatim>\<open>s.split(c)\<close> with a one-character separator: the pieces between the separators,
  empty pieces included, at least one piece.
\<close>

fun split_on :: "char \<Rightarrow> string \<Rightarrow> string list" where
  "split_on c [] = [[]]"
| "split_on c (x # xs) =
     (if x = c then [] # split_on c xs
      else (case split_on c xs of w # ws \<Rightarrow> (x # w) # ws | [] \<Rightarrow> [[x]]))"

text \<open>
  One pass of the loop of \<^verbatim>\<open>get_status\<close> (lines 277-283), on the pair of the dict and
  \<^verbatim>\<open>last_item\<close>. \<^verbatim>\<open>last_item[-1]\<close> raises \<open>IndexError\<close> on the empty string;
  \<^verbatim>\<open>k, v = item.split('=')\<close> raises \<open>ValueError\<close> unless there are exactly two pieces;
  \<^verbatim>\<open>stats[k] = v\<close> replaces the value of a key in place or appends a new key.
\<close>

definition status_step :: "string \<Rightarrow> stats \<times> string \<Rightarrow> error + (stats \<times> string)" where
  "status_step item st =
     (case st of (stats, last_item) \<Rightarrow>
        if last_item = [] then Inl IndexError
        else if last last_item = CHR ''='' then
          Inr (AList.update (butlast last_item) (SStr item) stats, item)
        else if CHR ''='' \<in> set item then
          (case split_on CHR ''='' item of
             [k, v] \<Rightarrow> Inr (AList.update k (SStr v) stats, item)
           | _ \<Rightarrow> Inl ValueError)
        else Inr (stats, item))"

fun status_loop :: "string list \<Rightarrow> stats \<times> string \<Rightarrow> error + (stats \<times> string)" where
  "status_loop [] st = Inr st"
| "status_loop (item # items) st = bind_err (status_step item st) (status_loop items)"

text \<open>Line 276: the non-empty pieces between spaces.\<close>

definition parts :: "string \<Rightarrow> string list" where
  "parts stderr = filter (\<lambda>x. length x > 0) (split_on CHR '' '' stderr)"

text \<open>
  \<^verbatim>\<open>get_status\<close> (lines 264-284). Its argument is the outcome of line 265, reading up to
  and including the next carriage return and decoding: the text, or the exception raised.
\<close>

definition get_status :: "error + string \<Rightarrow> error + stats" where
  "get_status rd =
     bind_err rd (\<lambda>stderr.
     bind_err (status_loop (parts stderr) (default_stats, ''-'')) (\<lambda>st.
     Inr (fst st)))"

text \<open>
  \<^verbatim>\<open>print_status\<close> (lines 255-262): the body of \<^verbatim>\<open>try\<close> is a fallible computation, the
  bare \<^verbatim>\<open>except\<close> takes every exception.
\<close>

definition print_status_try :: "error + string \<Rightarrow> console \<Rightarrow> error + console" where
  "print_status_try rd out =
     bind_err (get_status rd) (\<lambda>status.
     bind_err (dict_get status ''time'') (\<lambda>t.
     bind_err (dict_get status ''size'') (\<lambda>sz.
     Inr (infol [LStat t, LStat sz] out))))"

definition print_status :: "error + string \<Rightarrow> console \<Rightarrow> error + (bool \<times> console)" where
  "print_status rd out =
     (case print_status_try rd out of
        Inr out' \<Rightarrow> Inr (True, out')
      | Inl e \<Rightarrow> Inr (False, endl out))"

text \<open>
  The parser as the description of the status line words it, for comparison with
  \<open>get_status\<close>: a token that follows a token ending in \<open>=\<close> is the value of that key;
  otherwise a token with one \<open>=\<close> is cut there into key and value; a token with more
  than one \<open>=\<close> is the failure of the split; any other token is passed over.
\<close>

definition cut_at :: "char \<Rightarrow> string \<Rightarrow> string \<times> string" where
  "cut_at c s = (takeWhile (\<lambda>x. x \<noteq> c) s, tl (dropWhile (\<lambda>x. x \<noteq> c) s))"

fun scan_tokens :: "string list \<Rightarrow> string \<Rightarrow> stats \<Rightarrow> error + stats" where
  "scan_tokens [] prev st = Inr st"
| "scan_tokens (t # ts) prev st =
     (if prev \<noteq> [] \<and> last prev = CHR ''='' then
        scan_tokens ts t (AList.update (butlast prev) (SStr t) st)
      else if count_list t CHR ''='' = 1 then
        scan_tokens ts t (AList.update (fst (cut_at CHR ''='' t)) (SStr (snd (cut_at CHR ''='' t))) st)
      else if count_list t CHR ''='' > 1 then Inl ValueError
      else scan_tokens ts t st)"

section \<open>Control channel (class FC2WebSocket)\<close>

text \<open>
  A value of the dict \<^verbatim>\<open>_msg_responses\<close>: line 149 stores the whole frame, line 120 its
  arguments.
\<close>

datatype entry = Whole message | Args json

text \<open>
  The fields of the session object, with the socket as the list of frames it has yet to
  deliver (\<open>inbox\<close>, in arrival order) and the list of frames sent (\<open>outbox\<close>), and the
  printed lines.
\<close>

record ws =
  msg_id :: int
  msg_responses :: "(int \<times> entry) list"
  is_ready :: bool
  comments :: "json list"
  inbox :: "message list"
  outbox :: "message list"
  console :: console

text \<open>\<^verbatim>\<open>v[key]\<close> with a string key: only a JSON object can be subscripted so.\<close>

definition json_getitem :: "json \<Rightarrow> string \<Rightarrow> error + json" where
  "json_getitem v key = (case v of JObj d \<Rightarrow> dict_get d key | _ \<Rightarrow> Inl TypeError)"

text \<open>
  \<^verbatim>\<open>for x in v\<close>: the elements of an array, the keys of an object, the characters of
  a string; \<open>TypeError\<close> otherwise.
\<close>

definition json_iter :: "json \<Rightarrow> error + json list" where
  "json_iter v =
     (case v of
        JArr xs \<Rightarrow> Inr xs
      | JObj d \<Rightarrow> Inr (map (\<lambda>kv. JStr (fst kv)) d)
      | JStr cs \<Rightarrow> Inr (map (\<lambda>c. JStr [c]) cs)
      | _ \<Rightarrow> Inl TypeError)"

text \<open>
  \<^verbatim>\<open>asyncio.Queue.put\<close> is a coroutine function. Its body, on the unbounded queue of
  line 94, appends the item. Calling a coroutine function builds a coroutine object and
  runs nothing; the body runs when the object is awaited.
\<close>

definition queue_put :: "json \<Rightarrow> ws \<Rightarrow> ws" where
  "queue_put item s = s\<lparr>comments := comments s @ [item]\<rparr>"

definition awaited :: "(ws \<Rightarrow> ws) \<Rightarrow> ws \<Rightarrow> ws" where
  "awaited body s = body s"

definition not_awaited :: "(ws \<Rightarrow> ws) \<Rightarrow> ws \<Rightarrow> ws" where
  "not_awaited body s = s"

text \<open>
  \<^verbatim>\<open>_send_message\<close> (lines 153-161) in its two segments: up to the \<^verbatim>\<open>await\<close> of
  \<^verbatim>\<open>send_json\<close>, where the frame has been built with the new counter value, and after
  it, where line 161 reads the counter again.
\<close>

definition send_message_begin :: "string \<Rightarrow> json \<Rightarrow> ws \<Rightarrow> ws" where
  "send_message_begin n a s =
     (let s1 = s\<lparr>msg_id := msg_id s + 1\<rparr>;
          s2 = s1\<lparr>console := trace [LStr ''>'', LStr n, LJson a] (console s1)\<rparr>
      in s2\<lparr>outbox := outbox s2 @ [\<lparr>m_name = n, m_arguments = a, m_id = msg_id s2\<rparr>]\<rparr>)"

definition send_message_end :: "ws \<Rightarrow> int" where
  "send_message_end s = msg_id s"

text \<open>
  \<^verbatim>\<open>_receive_message\<close> (lines 141-151) as called at line 139, with a number for
  \<^verbatim>\<open>msg_id\<close>. \<open>receive_check\<close> is the head of the loop (lines 143-144): the entry
  popped, or \<open>None\<close> when the coroutine goes on to wait for a frame. \<open>receive_frame\<close> is
  the rest of the pass (lines 147-151) once \<^verbatim>\<open>receive_json\<close> has delivered the frame,
  followed by the head of the next pass.
\<close>

definition receive_check :: "int \<Rightarrow> ws \<Rightarrow> ws \<times> entry option" where
  "receive_check mid s =
     (case map_of (msg_responses s) mid of
        Some e \<Rightarrow> (s\<lparr>msg_responses := AList.delete mid (msg_responses s)\<rparr>, Some e)
      | None \<Rightarrow> (s, None))"

definition receive_frame :: "int \<Rightarrow> message \<Rightarrow> ws \<Rightarrow> ws \<times> entry option" where
  "receive_frame mid msg s =
     (let s1 = s\<lparr>console := trace [LStr ''<'', LMessage msg] (console s)\<rparr>
      in if m_name msg = ''_response_''
         then receive_check mid
                (s1\<lparr>msg_responses := AList.update (m_id msg) (Whole msg) (msg_responses s1)\<rparr>)
         else receive_check mid s1)"

text \<open>
  The same function as called at line 116, with \<^verbatim>\<open>msg_id\<close> \<open>None\<close>: the head of the
  loop never returns; a frame named \<^verbatim>\<open>_response_\<close> is stored and the coroutine waits for
  the next frame (\<open>None\<close>), any other frame is returned.
\<close>

definition receive_frame_any :: "message \<Rightarrow> ws \<Rightarrow> ws \<times> message option" where
  "receive_frame_any msg s =
     (let s1 = s\<lparr>console := trace [LStr ''<'', LMessage msg] (console s)\<rparr>
      in if m_name msg = ''_response_''
         then (s1\<lparr>msg_responses := AList.update (m_id msg) (Whole msg) (msg_responses s1)\<rparr>, None)
         else (s1, Some msg))"

text \<open>
  The body of the loop of \<^verbatim>\<open>_handle_incoming\<close> after line 116 (lines 117-129), for the
  frame that \<^verbatim>\<open>_receive_message\<close> returned. Line 129 calls \<^verbatim>\<open>put\<close> and drops the
  coroutine object.
\<close>

definition handle_incoming :: "message \<Rightarrow> ws \<Rightarrow> error + ws" where
  "handle_incoming msg s =
     (if m_name msg = ''connect_complete'' then Inr (s\<lparr>is_ready := True\<rparr>)
      else if m_name msg = ''_response_'' then
        Inr (s\<lparr>msg_responses :=
                 AList.update (m_id msg) (Args (m_arguments msg)) (msg_responses s)\<rparr>)
      else if m_name msg = ''control_disconnection'' then
        bind_err (json_getitem (m_arguments msg) ''code'') (\<lambda>code.
          if code = JNum 4101 then Inl PaidProgramDisconnection
          else if code = JNum 4512 then Inl MultipleConnectionError
          else Inr s)
      else if m_name msg = ''comment'' then
        bind_err (json_getitem (m_arguments msg) ''comments'') (\<lambda>cs.
        bind_err (json_iter cs) (\<lambda>items.
          Inr (fold (\<lambda>comment. not_awaited (queue_put comment)) items s)))
      else Inr s)"

text \<open>Line 112 of \<^verbatim>\<open>get_hls_information\<close>: \<^verbatim>\<open>msg['arguments']\<close> on a popped entry.\<close>

definition entry_arguments :: "entry \<Rightarrow> error + json" where
  "entry_arguments e =
     (case e of Whole msg \<Rightarrow> Inr (m_arguments msg) | Args a \<Rightarrow> json_getitem a ''arguments'')"

text \<open>
  The tasks of a session. Each is a coroutine held at one of its \<^verbatim>\<open>await\<close>s:
  \<^item> a call of \<^verbatim>\<open>get_hls_information\<close>: not yet started; inside \<^verbatim>\<open>_send_message\<close> at
    \<^verbatim>\<open>send_json\<close>, having sent the id it carries; inside \<^verbatim>\<open>_receive_message\<close> at
    \<^verbatim>\<open>receive_json\<close>, carrying the id it sent and the local \<^verbatim>\<open>msg_id\<close> it waits for;
    ended, with the same two numbers and the value returned or the exception raised;
  \<^item> \<^verbatim>\<open>_handle_incoming\<close> not yet started, at \<^verbatim>\<open>receive_json\<close>, or ended by an
    exception;
  \<^item> \<^verbatim>\<open>_handle_heartbeat\<close> before its first pass, at \<^verbatim>\<open>send_json\<close>, or at
    \<^verbatim>\<open>asyncio.sleep\<close>.
\<close>

datatype task =
    Call_start
  | Call_sending int
  | Call_receiving int int
  | Call_done int int "error + json"
  | Dispatch_start
  | Dispatch_receiving
  | Dispatch_failed error
  | Heartbeat_start
  | Heartbeat_sending
  | Heartbeat_sleeping

definition call_resume :: "int \<Rightarrow> int \<Rightarrow> ws \<times> entry option \<Rightarrow> ws \<times> task" where
  "call_resume i mid r =
     (case r of
        (s, Some e) \<Rightarrow> (s, Call_done i mid (entry_arguments e))
      | (s, None) \<Rightarrow> (s, Call_receiving i mid))"

definition heartbeat_pass :: "ws \<Rightarrow> ws" where
  "heartbeat_pass s =
     send_message_begin ''heartbeat'' (JObj [])
       (s\<lparr>console := debug [LStr ''heartbeat''] (console s)\<rparr>)"

text \<open>
  One scheduling of a task: the code it runs from the \<^verbatim>\<open>await\<close> that holds it to the
  next one, on the session state, when the socket lets it wait in \<^verbatim>\<open>receive_json\<close>.
  \<open>None\<close>: the task cannot run (it has ended, or it waits for a frame and the socket
  has none).
\<close>

definition task_step :: "ws \<Rightarrow> task \<Rightarrow> (ws \<times> task) option" where
  "task_step s t =
     (case t of
        Call_start \<Rightarrow>
          Some (send_message_begin ''get_hls_information'' (JObj []) s,
                Call_sending (msg_id s + 1))
      | Call_sending i \<Rightarrow>
          Some (call_resume i (send_message_end s) (receive_check (send_message_end s) s))
      | Call_receiving i mid \<Rightarrow>
          (case inbox s of
             [] \<Rightarrow> None
           | msg # rest \<Rightarrow> Some (call_resume i mid (receive_frame mid msg (s\<lparr>inbox := rest\<rparr>))))
      | Call_done i mid r \<Rightarrow> None
      | Dispatch_start \<Rightarrow> Some (s, Dispatch_receiving)
      | Dispatch_receiving \<Rightarrow>
          (case inbox s of
             [] \<Rightarrow> None
           | msg # rest \<Rightarrow>
               (case receive_frame_any msg (s\<lparr>inbox := rest\<rparr>) of
                  (s1, None) \<Rightarrow> Some (s1, Dispatch_receiving)
                | (s1, Some m) \<Rightarrow>
                    (case handle_incoming m s1 of
                       Inl e \<Rightarrow> Some (s1, Dispatch_failed e)
                     | Inr s2 \<Rightarrow> Some (s2, Dispatch_receiving))))
      | Dispatch_failed e \<Rightarrow> None
      | Heartbeat_start \<Rightarrow> Some (heartbeat_pass s, Heartbeat_sending)
      | Heartbeat_sending \<Rightarrow> Some (s, Heartbeat_sleeping)
      | Heartbeat_sleeping \<Rightarrow> Some (heartbeat_pass s, Heartbeat_sending))"

text \<open>
  The socket takes one receiver at a time: \<^verbatim>\<open>receive\<close> of an aiohttp web socket, which
  \<^verbatim>\<open>receive_json\<close> calls, raises \<open>RuntimeError\<close> (concurrent call to receive is not
  allowed) when another task already waits in it. \<open>parked\<close> are the tasks that wait
  there; \<open>refused\<close> is what becomes of a task whose call of \<^verbatim>\<open>receive_json\<close> raises:
  neither \<^verbatim>\<open>_receive_message\<close> nor its callers catch the exception.
\<close>

fun parked :: "task \<Rightarrow> bool" where
  "parked (Call_receiving i mid) = True"
| "parked Dispatch_receiving = True"
| "parked _ = False"

fun refused :: "task \<Rightarrow> task" where
  "refused (Call_receiving i mid) = Call_done i mid (Inl RuntimeError)"
| "refused Dispatch_receiving = Dispatch_failed RuntimeError"
| "refused t = t"

text \<open>
  The task at position \<open>i\<close> is scheduled among the tasks \<open>ts\<close>. It runs as \<open>task_step\<close>
  says; when it was not waiting on the socket and comes to \<^verbatim>\<open>receive_json\<close> while
  another task waits there, its call is refused. A task resumed from \<^verbatim>\<open>receive_json\<close>
  has left the socket free and may wait there again.
\<close>

definition sched_step :: "ws \<Rightarrow> task list \<Rightarrow> nat \<Rightarrow> (ws \<times> task) option" where
  "sched_step s ts i =
     (case task_step s (ts ! i) of
        None \<Rightarrow> None
      | Some (s', t') \<Rightarrow>
          Some (s', if parked t' \<and> \<not> parked (ts ! i) \<and> list_ex parked ts
                    then refused t' else t'))"

text \<open>
  A run of the event loop: the list of the tasks scheduled, by position, one after the
  other. \<open>None\<close> when the list schedules a task that cannot run. The tasks are
  coroutines on one loop, so the code between two \<^verbatim>\<open>await\<close>s runs undisturbed, and any
  task may be the next to run. The frames reach the socket at times of their own, in the
  order of \<open>inbox\<close>; the task that waits in \<^verbatim>\<open>receive_json\<close> is resumed with the next
  one.
\<close>

fun run :: "nat list \<Rightarrow> ws \<times> task list \<Rightarrow> (ws \<times> task list) option" where
  "run [] c = Some c"
| "run (i # sched) c =
     (if i < length (snd c) then
        (case sched_step (fst c) (snd c) i of
           None \<Rightarrow> None
         | Some (s', t') \<Rightarrow> run sched (s', (snd c)[i := t']))
      else None)"

text \<open>
  The session as \<^verbatim>\<open>__init__\<close> and \<^verbatim>\<open>__aenter__\<close> leave it (lines 87-102), for the
  frames the server is going to send, and its tasks: the two loops and \<open>n\<close> calls.
\<close>

definition open_session :: "message list \<Rightarrow> ws" where
  "open_session frames =
     \<lparr>msg_id = 0, msg_responses = [], is_ready = False, comments = [], inbox = frames,
      outbox = [], console = []\<rparr>"

definition session_tasks :: "nat \<Rightarrow> task list" where
  "session_tasks n = [Dispatch_start, Heartbeat_start] @ replicate n Call_start"





section \<open>Properties of variant selection\<close>

lemma fold_select_step:
  "fold (select_step m) xs acc =
     (case filter (\<lambda>p. mode p = m) xs of [] \<Rightarrow> acc | y # ys \<Rightarrow> Some (last (y # ys)))"
proof (induction xs arbitrary: acc)
  case Nil
  show ?case by simp
next
  case (Cons x xs)
  have "fold (select_step m) (x # xs) acc = fold (select_step m) xs (select_step m x acc)"
    by simp
  also have "\<dots> = (case filter (\<lambda>p. mode p = m) xs of
                      [] \<Rightarrow> select_step m x acc | y # ys \<Rightarrow> Some (last (y # ys)))"
    by (rule Cons.IH)
  also have "\<dots> = (case filter (\<lambda>p. mode p = m) (x # xs) of
                      [] \<Rightarrow> acc | y # ys \<Rightarrow> Some (last (y # ys)))"
    by (simp add: select_step_def split: list.splits)
  finally show ?case .
qed

lemma get_playlist_or_best_eq:
  "get_playlist_or_best xs m =
     (case filter (\<lambda>p. mode p = m) xs of
        [] \<Rightarrow> (case xs of [] \<Rightarrow> Inl IndexError | x # _ \<Rightarrow> Inr x)
      | y # ys \<Rightarrow> Inr (last (y # ys)))"
  by (simp add: get_playlist_or_best_def fold_select_step list_get_def split: list.splits)

lemma get_playlist_or_best_nonempty:
  assumes "xs \<noteq> []"
  shows "get_playlist_or_best xs m =
           Inr (if \<exists>p\<in>set xs. mode p = m then last (filter (\<lambda>p. mode p = m) xs) else hd xs)"
proof (cases "filter (\<lambda>p. mode p = m) xs")
  case Nil
  then have "\<not> (\<exists>p\<in>set xs. mode p = m)"
    by (simp add: filter_empty_conv)
  with Nil assms show ?thesis
    by (cases xs) (simp_all add: get_playlist_or_best_eq)
next
  case (Cons y ys)
  then have "y \<in> set (filter (\<lambda>p. mode p = m) xs)" by simp
  then have "\<exists>p\<in>set xs. mode p = m" by auto
  with Cons show ?thesis
    by (simp add: get_playlist_or_best_eq)
qed

lemma get_playlist_or_best_member:
  "get_playlist_or_best xs m = Inr p \<Longrightarrow> p \<in> set xs"
proof (cases "filter (\<lambda>p. mode p = m) xs")
  case Nil
  assume "get_playlist_or_best xs m = Inr p"
  with Nil show ?thesis
    by (cases xs) (simp_all add: get_playlist_or_best_eq)
next
  case (Cons y ys)
  assume r: "get_playlist_or_best xs m = Inr p"
  have "last (y # ys) \<in> set (y # ys)" by (rule last_in_set) simp
  with Cons have "last (y # ys) \<in> set xs"
    by (metis filter_is_subset subsetD)
  with r Cons show ?thesis
    by (simp add: get_playlist_or_best_eq)
qed

lemma get_playlist_or_best_error:
  "get_playlist_or_best xs m = Inl e \<longleftrightarrow> xs = [] \<and> e = IndexError"
  by (cases xs) (auto simp add: get_playlist_or_best_eq split: list.splits)

lemma sorted_py_reverse_sorted:
  "sorted_wrt (\<lambda>a b. f a \<ge> f b) (sorted_py f True xs)"
proof -
  have "sorted (map f (sort_key f (rev xs)))" by (rule sorted_sort_key)
  then have "sorted_wrt (\<lambda>a b. f a \<le> f b) (sort_key f (rev xs))"
    by (simp add: sorted_map)
  then show ?thesis
    by (simp add: sorted_py_def sorted_wrt_rev)
qed

lemma sorted_py_mset: "mset (sorted_py f r xs) = mset xs"
  by (simp add: sorted_py_def)

lemma sorted_py_stable:
  "filter (\<lambda>y. f y = k) (sorted_py f r xs) = filter (\<lambda>y. f y = k) xs"
  by (simp add: sorted_py_def sort_key_stable flip: rev_filter)

lemma sort_playlists_set: "set (sort_playlists xs) = set xs"
proof -
  have "set_mset (mset (sort_playlists xs)) = set_mset (mset xs)"
    by (simp only: sort_playlists_def sorted_py_mset)
  then show ?thesis by simp
qed

lemma sort_playlists_Nil: "sort_playlists xs = [] \<longleftrightarrow> xs = []"
  using sort_playlists_set [of xs] by (metis set_empty)

lemma example_sorted:
  "sort_playlists [\<lparr>mode = 50, url = ''a''\<rparr>, \<lparr>mode = 52, url = ''b''\<rparr>] =
     [\<lparr>mode = 52, url = ''b''\<rparr>, \<lparr>mode = 50, url = ''a''\<rparr>]"
  by (simp add: sort_playlists_def sorted_py_def key_map_def)

lemma example_merged:
  "merge_playlists [''playlists'' \<mapsto> [\<lparr>mode = 50, url = ''a''\<rparr>, \<lparr>mode = 52, url = ''b''\<rparr>]] =
     [\<lparr>mode = 50, url = ''a''\<rparr>, \<lparr>mode = 52, url = ''b''\<rparr>]"
  by (simp add: merge_playlists_def merge_names_def merge_step_def)

lemma example_mode: "get_mode \<lparr>quality = ''3Mbps'', latency = ''mid''\<rparr> = Inr 52"
  by (simp add: get_mode_def dict_get_def STREAM_QUALITY_def STREAM_LATENCY_def bind_err_def)

text \<open>
  C2. For every non-empty sequence of variants and every desired mode, selection returns
  the last element whose mode equals the desired mode, and the first element of the
  sequence when no element has that mode. For the manifest with the single list
  \<open>playlists = [{mode 50, url a}, {mode 52, url b}]\<close> and the preference 3Mbps / mid the
  desired mode is 52 and the variant selected is \<open>{mode 52, url b}\<close>.
\<close>

theorem C2_select_last_match_or_first:
  "(xs \<noteq> [] \<longrightarrow>
      get_playlist_or_best xs m =
        Inr (if \<exists>p\<in>set xs. mode p = m then last (filter (\<lambda>p. mode p = m) xs) else hd xs))
   \<and> get_mode \<lparr>quality = ''3Mbps'', latency = ''mid''\<rparr> = Inr 52
   \<and> get_playlist_or_best
        (sort_playlists (merge_playlists
           [''playlists'' \<mapsto> [\<lparr>mode = 50, url = ''a''\<rparr>, \<lparr>mode = 52, url = ''b''\<rparr>]])) 52 =
        Inr \<lparr>mode = 52, url = ''b''\<rparr>"
proof (intro conjI impI)
  assume "xs \<noteq> []"
  then show "get_playlist_or_best xs m =
      Inr (if \<exists>p\<in>set xs. mode p = m then last (filter (\<lambda>p. mode p = m) xs) else hd xs)"
    by (rule get_playlist_or_best_nonempty)
next
  show "get_mode \<lparr>quality = ''3Mbps'', latency = ''mid''\<rparr> = Inr 52"
    by (rule example_mode)
next
  show "get_playlist_or_best
        (sort_playlists (merge_playlists
           [''playlists'' \<mapsto> [\<lparr>mode = 50, url = ''a''\<rparr>, \<lparr>mode = 52, url = ''b''\<rparr>]])) 52 =
        Inr \<lparr>mode = 52, url = ''b''\<rparr>"
    by (simp only: example_merged example_sorted) (simp add: get_playlist_or_best_eq)
qed

theorem C2_select_witness:
  "[\<lparr>mode = 52, url = ''a''\<rparr>, \<lparr>mode = 50, url = ''b''\<rparr>, \<lparr>mode = 52, url = ''c''\<rparr>] \<noteq> []
   \<and> get_playlist_or_best
       [\<lparr>mode = 52, url = ''a''\<rparr>, \<lparr>mode = 50, url = ''b''\<rparr>, \<lparr>mode = 52, url = ''c''\<rparr>] 52 =
       Inr \<lparr>mode = 52, url = ''c''\<rparr>
   \<and> get_playlist_or_best
       [\<lparr>mode = 52, url = ''a''\<rparr>, \<lparr>mode = 50, url = ''b''\<rparr>, \<lparr>mode = 52, url = ''c''\<rparr>] 41 =
       Inr \<lparr>mode = 52, url = ''a''\<rparr>"
  using C2_select_last_match_or_first
          [of "[\<lparr>mode = 52, url = ''a''\<rparr>, \<lparr>mode = 50, url = ''b''\<rparr>, \<lparr>mode = 52, url = ''c''\<rparr>]" 52]
        C2_select_last_match_or_first
          [of "[\<lparr>mode = 52, url = ''a''\<rparr>, \<lparr>mode = 50, url = ''b''\<rparr>, \<lparr>mode = 52, url = ''c''\<rparr>]" 41]
  by simp

text \<open>
  C3, in the form that holds of the code. Selection over the sorted merged variants fails
  exactly when the merged list is empty, and the failure is Python's own \<open>IndexError\<close>,
  raised by \<^verbatim>\<open>sorted_playlists[0]\<close>: selection raises nothing else, and never an
  \<open>EmptyManifestError\<close>. For a non-empty merged list it returns one of the merged
  variants. The same holds for \<^verbatim>\<open>_get_hls_url\<close> whenever the preference maps to a mode.
\<close>

theorem C3_fails_iff_merged_empty:
  "(get_playlist_or_best (sort_playlists (merge_playlists h)) m = Inl IndexError
      \<longleftrightarrow> merge_playlists h = [])
   \<and> (\<forall>e. get_playlist_or_best (sort_playlists (merge_playlists h)) m = Inl e
          \<longrightarrow> e = IndexError \<and> merge_playlists h = [])
   \<and> get_playlist_or_best (sort_playlists (merge_playlists h)) m \<noteq> Inl EmptyManifestError
   \<and> (merge_playlists h \<noteq> [] \<longrightarrow>
        (\<exists>p\<in>set (merge_playlists h).
           get_playlist_or_best (sort_playlists (merge_playlists h)) m = Inr p))
   \<and> (get_mode ps = Inr m \<longrightarrow>
        (get_hls_url ps h = Inl IndexError \<longleftrightarrow> merge_playlists h = []) \<and>
        (merge_playlists h \<noteq> [] \<longrightarrow>
           (\<exists>p\<in>set (merge_playlists h). get_hls_url ps h = Inr (url p))))"
proof -
  let ?sel = "get_playlist_or_best (sort_playlists (merge_playlists h)) m"
  have err: "?sel = Inl e \<longleftrightarrow> merge_playlists h = [] \<and> e = IndexError" for e
    by (simp add: get_playlist_or_best_error sort_playlists_Nil)
  have ok: "\<exists>p\<in>set (merge_playlists h). ?sel = Inr p" if "merge_playlists h \<noteq> []"
  proof (cases ?sel)
    case (Inl e)
    with err [of e] that show ?thesis by simp
  next
    case (Inr p)
    then have "p \<in> set (sort_playlists (merge_playlists h))"
      by (rule get_playlist_or_best_member)
    with Inr show ?thesis by (simp add: sort_playlists_set)
  qed
  have url1: "get_hls_url ps h = Inl IndexError \<longleftrightarrow> merge_playlists h = []"
    if "get_mode ps = Inr m"
  proof (cases ?sel)
    case (Inl e)
    with err [of e] that show ?thesis by (simp add: get_hls_url_def bind_err_def)
  next
    case (Inr p)
    with err [of IndexError] that show ?thesis by (simp add: get_hls_url_def bind_err_def)
  qed
  have url2: "\<exists>p\<in>set (merge_playlists h). get_hls_url ps h = Inr (url p)"
    if "get_mode ps = Inr m" "merge_playlists h \<noteq> []"
  proof -
    from ok that(2) obtain p where "p \<in> set (merge_playlists h)" "?sel = Inr p" by blast
    with that(1) show ?thesis by (auto simp add: get_hls_url_def bind_err_def)
  qed
  from err [of EmptyManifestError] have ne: "?sel \<noteq> Inl EmptyManifestError" by simp
  from err ok url1 url2 ne show ?thesis by blast
qed

theorem C3_fails_iff_merged_empty_witness:
  "merge_playlists Map.empty = []
   \<and> get_playlist_or_best (sort_playlists (merge_playlists Map.empty)) 52 = Inl IndexError
   \<and> get_mode \<lparr>quality = ''3Mbps'', latency = ''mid''\<rparr> = Inr 52
   \<and> get_hls_url \<lparr>quality = ''3Mbps'', latency = ''mid''\<rparr> Map.empty = Inl IndexError
   \<and> merge_playlists [''playlists_high_latency'' \<mapsto> [\<lparr>mode = 11, url = ''u''\<rparr>]] \<noteq> []
   \<and> get_playlist_or_best
       (sort_playlists (merge_playlists
          [''playlists_high_latency'' \<mapsto> [\<lparr>mode = 11, url = ''u''\<rparr>]])) 52 =
       Inr \<lparr>mode = 11, url = ''u''\<rparr>"
proof -
  have e: "merge_playlists Map.empty = []"
    by (simp add: merge_playlists_def merge_names_def merge_step_def)
  have n: "merge_playlists [''playlists_high_latency'' \<mapsto> [\<lparr>mode = 11, url = ''u''\<rparr>]] =
             [\<lparr>mode = 11, url = ''u''\<rparr>]"
    by (simp add: merge_playlists_def merge_names_def merge_step_def)
  have m: "get_mode \<lparr>quality = ''3Mbps'', latency = ''mid''\<rparr> = Inr 52"
    by (rule example_mode)
  show ?thesis
    using C3_fails_iff_merged_empty [of Map.empty 52 "\<lparr>quality = ''3Mbps'', latency = ''mid''\<rparr>"]
          C3_fails_iff_merged_empty
            [of "[''playlists_high_latency'' \<mapsto> [\<lparr>mode = 11, url = ''u''\<rparr>]]" 52
                "\<lparr>quality = ''3Mbps'', latency = ''mid''\<rparr>"]
          e n m
    by simp
qed

theorem C3_index_error_counterexample:
  "merge_playlists Map.empty = []
   \<and> get_playlist_or_best (sort_playlists (merge_playlists Map.empty)) 52 = Inl IndexError
   \<and> get_playlist_or_best (sort_playlists (merge_playlists Map.empty)) 52 \<noteq>
       Inl EmptyManifestError"
proof -
  have e: "merge_playlists Map.empty = []"
    by (simp add: merge_playlists_def merge_names_def merge_step_def)
  have s: "sort_playlists [] = []"
    by (simp add: sort_playlists_def sorted_py_def)
  have "get_playlist_or_best (sort_playlists (merge_playlists Map.empty)) 52 = Inl IndexError"
    by (simp only: e s) (simp add: get_playlist_or_best_eq)
  with e show ?thesis by simp
qed

text \<open>
  C7. \<^verbatim>\<open>_sort_playlists\<close> is a stable sort, descending by rank key: its result is
  ordered by non-increasing key, is a rearrangement of its argument, and keeps the
  variants of each key in the order they had in the argument (the merged list). The key of
  a variant is its mode minus 90 when the mode is at least 90, and its mode otherwise.
\<close>

theorem C7_sort_playlists_stable_descending:
  "sorted_wrt (\<lambda>a b. key_map a \<ge> key_map b) (sort_playlists xs)
   \<and> mset (sort_playlists xs) = mset xs
   \<and> (\<forall>k. filter (\<lambda>p. key_map p = k) (sort_playlists xs) = filter (\<lambda>p. key_map p = k) xs)
   \<and> (mode v \<ge> 90 \<longrightarrow> key_map v = mode v - 90)
   \<and> (mode v < 90 \<longrightarrow> key_map v = mode v)"
proof (intro conjI allI)
  show "sorted_wrt (\<lambda>a b. key_map a \<ge> key_map b) (sort_playlists xs)"
    unfolding sort_playlists_def by (rule sorted_py_reverse_sorted)
  show "mset (sort_playlists xs) = mset xs"
    unfolding sort_playlists_def by (rule sorted_py_mset)
  show "filter (\<lambda>p. key_map p = k) (sort_playlists xs) = filter (\<lambda>p. key_map p = k) xs" for k
    unfolding sort_playlists_def by (rule sorted_py_stable)
  show "mode v \<ge> 90 \<longrightarrow> key_map v = mode v - 90"
    by (simp add: key_map_def)
  show "mode v < 90 \<longrightarrow> key_map v = mode v"
    by (simp add: key_map_def)
qed

theorem C7_sort_playlists_witness:
  "sorted_wrt (\<lambda>a b. key_map a \<ge> key_map b)
     (sort_playlists [\<lparr>mode = 50, url = ''a''\<rparr>, \<lparr>mode = 92, url = ''s''\<rparr>,
                      \<lparr>mode = 52, url = ''b''\<rparr>, \<lparr>mode = 2, url = ''t''\<rparr>])
   \<and> sort_playlists [\<lparr>mode = 50, url = ''a''\<rparr>, \<lparr>mode = 92, url = ''s''\<rparr>,
                     \<lparr>mode = 52, url = ''b''\<rparr>, \<lparr>mode = 2, url = ''t''\<rparr>] =
       [\<lparr>mode = 52, url = ''b''\<rparr>, \<lparr>mode = 50, url = ''a''\<rparr>,
        \<lparr>mode = 92, url = ''s''\<rparr>, \<lparr>mode = 2, url = ''t''\<rparr>]
   \<and> (mode \<lparr>mode = 92, url = ''s''\<rparr> \<ge> 90 \<and> key_map \<lparr>mode = 92, url = ''s''\<rparr> = 2)
   \<and> (mode \<lparr>mode = 50, url = ''a''\<rparr> < 90 \<and> key_map \<lparr>mode = 50, url = ''a''\<rparr> = 50)"
proof -
  have s: "sort_playlists [\<lparr>mode = 50, url = ''a''\<rparr>, \<lparr>mode = 92, url = ''s''\<rparr>,
                     \<lparr>mode = 52, url = ''b''\<rparr>, \<lparr>mode = 2, url = ''t''\<rparr>] =
       [\<lparr>mode = 52, url = ''b''\<rparr>, \<lparr>mode = 50, url = ''a''\<rparr>,
        \<lparr>mode = 92, url = ''s''\<rparr>, \<lparr>mode = 2, url = ''t''\<rparr>]"
    by (simp add: sort_playlists_def sorted_py_def key_map_def)
  show ?thesis
    using C7_sort_playlists_stable_descending
            [of "[\<lparr>mode = 50, url = ''a''\<rparr>, \<lparr>mode = 92, url = ''s''\<rparr>,
                  \<lparr>mode = 52, url = ''b''\<rparr>, \<lparr>mode = 2, url = ''t''\<rparr>]"
                "\<lparr>mode = 92, url = ''s''\<rparr>"]
          C7_sort_playlists_stable_descending [of "[]" "\<lparr>mode = 50, url = ''a''\<rparr>"]
          s
    by simp
qed

text \<open>
  C8. For every manifest, \<^verbatim>\<open>_merge_playlists\<close> returns the lists found under the keys
  \<open>playlists\<close>, \<open>playlists_high_latency\<close> and \<open>playlists_middle_latency\<close>, appended in
  this order, each as it is; an absent key contributes nothing, and with the three keys
  absent the result is the empty list.
\<close>

theorem C8_merge_playlists_concat:
  "merge_playlists h =
     (case h ''playlists'' of None \<Rightarrow> [] | Some l \<Rightarrow> l) @
     (case h ''playlists_high_latency'' of None \<Rightarrow> [] | Some l \<Rightarrow> l) @
     (case h ''playlists_middle_latency'' of None \<Rightarrow> [] | Some l \<Rightarrow> l)
   \<and> (h ''playlists'' = None \<and> h ''playlists_high_latency'' = None \<and>
      h ''playlists_middle_latency'' = None \<longrightarrow> merge_playlists h = [])"
  by (simp add: merge_playlists_def merge_names_def merge_step_def split: option.splits)

theorem C8_merge_playlists_witness:
  "merge_playlists
     [''playlists_middle_latency'' \<mapsto> [\<lparr>mode = 52, url = ''m''\<rparr>],
      ''playlists'' \<mapsto> [\<lparr>mode = 50, url = ''a''\<rparr>, \<lparr>mode = 40, url = ''b''\<rparr>]] =
     [\<lparr>mode = 50, url = ''a''\<rparr>, \<lparr>mode = 40, url = ''b''\<rparr>, \<lparr>mode = 52, url = ''m''\<rparr>]
   \<and> merge_playlists Map.empty = []"
  using C8_merge_playlists_concat
          [of "[''playlists_middle_latency'' \<mapsto> [\<lparr>mode = 52, url = ''m''\<rparr>],
                ''playlists'' \<mapsto> [\<lparr>mode = 50, url = ''a''\<rparr>, \<lparr>mode = 40, url = ''b''\<rparr>]]"]
        C8_merge_playlists_concat [of Map.empty]
  by simp

text \<open>
  C9. \<^verbatim>\<open>_format_mode\<close> undoes \<^verbatim>\<open>_get_mode\<close>: for every quality that is a key of
  \<open>STREAM_QUALITY\<close> (the audio-only \<open>sound\<close> included) and every latency that is a key of
  \<open>STREAM_LATENCY\<close>, \<^verbatim>\<open>_get_mode\<close> returns a mode, and \<^verbatim>\<open>_format_mode\<close> of that mode
  returns the pair of that quality and that latency.
\<close>

theorem C9_format_mode_inverts_get_mode:
  assumes "quality ps \<in> set (map fst STREAM_QUALITY)"
    and "latency ps \<in> set (map fst STREAM_LATENCY)"
  shows "\<exists>m. get_mode ps = Inr m \<and> format_mode m = Inr (quality ps, latency ps)"
  using assms
  by (auto simp add: get_mode_def dict_get_def STREAM_QUALITY_def STREAM_LATENCY_def
      bind_err_def format_mode_def dict_search_def list_get_def)

theorem C9_format_mode_witness:
  "''sound'' \<in> set (map fst STREAM_QUALITY) \<and> ''high'' \<in> set (map fst STREAM_LATENCY)
   \<and> get_mode \<lparr>quality = ''sound'', latency = ''high''\<rparr> = Inr 91
   \<and> format_mode 91 = Inr (''sound'', ''high'')"
proof -
  have q: "quality \<lparr>quality = ''sound'', latency = ''high''\<rparr> \<in> set (map fst STREAM_QUALITY)"
    by (simp add: STREAM_QUALITY_def)
  have l: "latency \<lparr>quality = ''sound'', latency = ''high''\<rparr> \<in> set (map fst STREAM_LATENCY)"
    by (simp add: STREAM_LATENCY_def)
  have m: "get_mode \<lparr>quality = ''sound'', latency = ''high''\<rparr> = Inr 91"
    by (simp add: get_mode_def dict_get_def STREAM_QUALITY_def STREAM_LATENCY_def bind_err_def)
  from C9_format_mode_inverts_get_mode [OF q l] m
  have "format_mode 91 = Inr (''sound'', ''high'')" by simp
  with q l m show ?thesis by simp
qed

section \<open>Properties of the status parser\<close>

lemma split_on_not_Nil: "split_on c s \<noteq> []"
  by (induction s) (auto split: list.splits)

lemma length_split_on: "length (split_on c s) = Suc (count_list s c)"
proof (induction s)
  case Nil
  show ?case by simp
next
  case (Cons x s)
  then show ?case
    using split_on_not_Nil [of c s] by (cases "split_on c s") auto
qed

lemma split_on_absent: "c \<notin> set s \<Longrightarrow> split_on c s = [s]"
  by (induction s) auto

lemma split_on_once:
  "count_list s c = 1 \<Longrightarrow> split_on c s = [fst (cut_at c s), snd (cut_at c s)]"
proof (induction s)
  case Nil
  then show ?case by simp
next
  case (Cons x s)
  show ?case
  proof (cases "x = c")
    case True
    with Cons.prems have "count_list s c = 0" by simp
    then have "c \<notin> set s" by (simp add: count_list_0_iff)
    with True show ?thesis by (simp add: split_on_absent cut_at_def)
  next
    case False
    with Cons.prems have "count_list s c = 1" by simp
    with Cons.IH False show ?thesis by (simp add: cut_at_def)
  qed
qed

lemma split_on_pieces: "t \<in> set (split_on c s) \<Longrightarrow> c \<notin> set t"
proof (induction s arbitrary: t)
  case Nil
  then show ?case by simp
next
  case (Cons x s)
  show ?case
  proof (cases "x = c")
    case True
    with Cons show ?thesis by auto
  next
    case False
    obtain w ws where w: "split_on c s = w # ws"
      using split_on_not_Nil [of c s] by (cases "split_on c s") auto
    with Cons.prems False have "t = x # w \<or> t \<in> set ws" by auto
    with Cons.IH w False show ?thesis by auto
  qed
qed

lemma concat_split_on: "concat (split_on c s) = filter (\<lambda>x. x \<noteq> c) s"
proof (induction s)
  case Nil
  show ?case by simp
next
  case (Cons x s)
  obtain w ws where w: "split_on c s = w # ws"
    using split_on_not_Nil [of c s] by (cases "split_on c s") auto
  with Cons show ?case by auto
qed

lemma parts_tokens: "t \<in> set (parts line) \<Longrightarrow> t \<noteq> [] \<and> CHR '' '' \<notin> set t"
  by (auto simp add: parts_def dest: split_on_pieces)

lemma concat_parts: "concat (parts line) = filter (\<lambda>x. x \<noteq> CHR '' '') line"
proof -
  have "concat (filter (\<lambda>x. length x > 0) xss) = concat xss" for xss :: "string list"
    by (induction xss) auto
  then show ?thesis by (simp add: parts_def concat_split_on)
qed

lemma count_list_pos_iff: "count_list xs x > 0 \<longleftrightarrow> x \<in> set xs"
  using count_list_0_iff [of xs x] by auto

lemma status_step_cases:
  assumes "last_item \<noteq> []"
  shows "status_step item (stats, last_item) =
     (if last last_item = CHR ''='' then
        Inr (AList.update (butlast last_item) (SStr item) stats, item)
      else if count_list item CHR ''='' = 1 then
        Inr (AList.update (fst (cut_at CHR ''='' item)) (SStr (snd (cut_at CHR ''='' item))) stats,
             item)
      else if count_list item CHR ''='' > 1 then Inl ValueError
      else Inr (stats, item))"
proof -
  consider "count_list item CHR ''='' = 0" | "count_list item CHR ''='' = 1"
    | "count_list item CHR ''='' > 1"
    by linarith
  then show ?thesis
  proof cases
    case 1
    then have "CHR ''='' \<notin> set item" by (simp add: count_list_0_iff)
    with 1 assms show ?thesis by (simp add: status_step_def)
  next
    case 2
    then have "CHR ''='' \<in> set item" using count_list_pos_iff [of item "CHR ''=''"] by simp
    with 2 assms show ?thesis by (simp add: status_step_def split_on_once)
  next
    case 3
    then have in_item: "CHR ''='' \<in> set item"
      using count_list_pos_iff [of item "CHR ''=''"] by simp
    from 3 have "length (split_on CHR ''='' item) > 2" by (simp add: length_split_on)
    then have "(case split_on CHR ''='' item of
                  [k, v] \<Rightarrow> Inr (AList.update k (SStr v) stats, item)
                | _ \<Rightarrow> Inl ValueError) = Inl ValueError"
      by (auto split: list.splits)
    with 3 in_item assms show ?thesis by (simp add: status_step_def)
  qed
qed

lemma status_loop_scan:
  assumes "last_item \<noteq> []" and "\<forall>t\<in>set items. t \<noteq> []"
  shows "bind_err (status_loop items (stats, last_item)) (\<lambda>st. Inr (fst st)) =
           scan_tokens items last_item stats"
  using assms
proof (induction items arbitrary: stats last_item)
  case Nil
  show ?case by (simp add: bind_err_def)
next
  case (Cons t ts)
  from Cons.prems have t: "t \<noteq> []" and ts: "\<forall>t\<in>set ts. t \<noteq> []" by simp_all
  note ih = Cons.IH [OF t ts]
  show ?case
    using Cons.prems(1) ih
    by (simp add: status_step_cases) (simp add: bind_err_def)
qed

lemma get_status_scan:
  "get_status (Inr line) = scan_tokens (parts line) ''-'' default_stats"
proof -
  have "\<forall>t\<in>set (parts line). t \<noteq> []" by (simp add: parts_tokens)
  then have "bind_err (status_loop (parts line) (default_stats, ''-'')) (\<lambda>st. Inr (fst st)) =
               scan_tokens (parts line) ''-'' default_stats"
    by (intro status_loop_scan) simp_all
  then show ?thesis by (simp add: get_status_def bind_err_def)
qed

lemma scan_tokens_keeps:
  assumes "scan_tokens ts prev st = Inr st'"
    and "prev \<noteq> [] \<and> last prev = CHR ''='' \<longrightarrow> k \<noteq> butlast prev"
    and "\<forall>t\<in>set ts. k \<noteq> butlast t \<and> k \<noteq> fst (cut_at CHR ''='' t)"
  shows "map_of st' k = map_of st k"
  using assms
proof (induction ts arbitrary: prev st)
  case Nil
  then show ?case by simp
next
  case (Cons t ts)
  from Cons.prems(3) have kt: "k \<noteq> butlast t" "k \<noteq> fst (cut_at CHR ''='' t)"
    and rest: "\<forall>t\<in>set ts. k \<noteq> butlast t \<and> k \<noteq> fst (cut_at CHR ''='' t)"
    by simp_all
  from kt(1) have kt': "t \<noteq> [] \<and> last t = CHR ''='' \<longrightarrow> k \<noteq> butlast t" by simp
  show ?case
  proof (cases "prev \<noteq> [] \<and> last prev = CHR ''=''")
    case True
    with Cons.prems(1)
    have "scan_tokens ts t (AList.update (butlast prev) (SStr t) st) = Inr st'" by simp
    from Cons.IH [OF this kt' rest] Cons.prems(2) True show ?thesis
      by (simp add: update_conv')
  next
    case False
    note nprev = False
    show ?thesis
    proof (cases "count_list t CHR ''='' = 1")
      case True
      with nprev Cons.prems(1)
      have "scan_tokens ts t
              (AList.update (fst (cut_at CHR ''='' t)) (SStr (snd (cut_at CHR ''='' t))) st) = Inr st'"
        by auto
      from Cons.IH [OF this kt' rest] kt(2) show ?thesis
        by (simp add: update_conv')
    next
      case False
      with nprev Cons.prems(1) have "scan_tokens ts t st = Inr st'"
        by (auto split: if_splits)
      from Cons.IH [OF this kt' rest] show ?thesis .
    qed
  qed
qed

lemma scan_tokens_dom:
  assumes "scan_tokens ts prev st = Inr st'" and "map_of st k \<noteq> None"
  shows "map_of st' k \<noteq> None"
  using assms
proof (induction ts arbitrary: prev st)
  case Nil
  then show ?case by simp
next
  case (Cons t ts)
  have upd: "map_of (AList.update k' v st) k \<noteq> None" for k' v
    using Cons.prems(2) by (simp add: update_conv')
  show ?case
  proof (cases "prev \<noteq> [] \<and> last prev = CHR ''=''")
    case True
    with Cons.prems(1)
    have "scan_tokens ts t (AList.update (butlast prev) (SStr t) st) = Inr st'" by simp
    from Cons.IH [OF this upd] show ?thesis .
  next
    case False
    note nprev = False
    show ?thesis
    proof (cases "count_list t CHR ''='' = 1")
      case True
      with nprev Cons.prems(1)
      have "scan_tokens ts t
              (AList.update (fst (cut_at CHR ''='' t)) (SStr (snd (cut_at CHR ''='' t))) st) = Inr st'"
        by auto
      from Cons.IH [OF this upd] show ?thesis .
    next
      case False
      with nprev Cons.prems(1) have "scan_tokens ts t st = Inr st'"
        by (auto split: if_splits)
      from Cons.IH [OF this Cons.prems(2)] show ?thesis .
    qed
  qed
qed

lemma get_status_has_defaults:
  assumes "get_status rd = Inr st" and "map_of default_stats k \<noteq> None"
  shows "map_of st k \<noteq> None"
proof (cases rd)
  case (Inl e)
  with assms(1) show ?thesis by (simp add: get_status_def bind_err_def)
next
  case (Inr line)
  with assms(1) have "scan_tokens (parts line) ''-'' default_stats = Inr st"
    by (simp add: get_status_scan)
  then show ?thesis using assms(2) by (rule scan_tokens_dom)
qed

lemma print_status_try_ok:
  "(\<exists>out'. print_status_try rd out = Inr out') \<longleftrightarrow> (\<exists>st. get_status rd = Inr st)"
proof
  assume "\<exists>out'. print_status_try rd out = Inr out'"
  then show "\<exists>st. get_status rd = Inr st"
    by (cases "get_status rd") (auto simp add: print_status_try_def bind_err_def)
next
  assume "\<exists>st. get_status rd = Inr st"
  then obtain st where st: "get_status rd = Inr st" ..
  have "map_of st ''time'' \<noteq> None"
    by (rule get_status_has_defaults [OF st]) (simp add: default_stats_def)
  moreover have "map_of st ''size'' \<noteq> None"
    by (rule get_status_has_defaults [OF st]) (simp add: default_stats_def)
  ultimately show "\<exists>out'. print_status_try rd out = Inr out'"
    using st by (auto simp add: print_status_try_def bind_err_def dict_get_def)
qed

lemma print_status_try_error:
  "get_status rd = Inl e \<Longrightarrow> print_status_try rd out = Inl e"
  by (simp add: print_status_try_def bind_err_def)

lemma get_status_two_equals:
  assumes "parts line = t # ts" and "count_list t CHR ''='' > 1"
  shows "get_status (Inr line) = Inl ValueError"
  using assms by (simp add: get_status_scan)

lemma line_spaced:
  "get_status (Inr (''frame=10 fps=25.0 q=-1.0 size=1024kB time=00:00:01.00 bitrate=N/A speed=1.0x ''
                    @ [CHR 0x0D])) =
     Inr [(''frame'', SStr ''10''), (''fps'', SStr ''25.0''), (''q'', SStr ''-1.0''),
          (''size'', SStr ''1024kB''), (''time'', SStr ''00:00:01.00''),
          (''bitrate'', SStr ''N/A''), (''speed'', SStr ''1.0x'')]"
  by (simp add: get_status_def parts_def bind_err_def status_step_def default_stats_def)

lemma line_unspaced:
  "get_status (Inr (''frame=10 fps=25.0 q=-1.0 size=1024kB time=00:00:01.00 bitrate=N/A speed=1.0x''
                    @ [CHR 0x0D])) =
     Inr [(''frame'', SStr ''10''), (''fps'', SStr ''25.0''), (''q'', SStr ''-1.0''),
          (''size'', SStr ''1024kB''), (''time'', SStr ''00:00:01.00''),
          (''bitrate'', SStr ''N/A''), (''speed'', SStr (''1.0x'' @ [CHR 0x0D]))]"
  by (simp add: get_status_def parts_def bind_err_def status_step_def default_stats_def)

text \<open>
  C6, in the form that holds of the code. \<^verbatim>\<open>get_status\<close> cuts the line at the space
  character only and drops the empty pieces: every token is non-empty and free of spaces,
  and the tokens together hold every other character of the line, the carriage return
  that ends it included. On the tokens it does what \<open>scan_tokens\<close> says: a token after a
  token ending in \<open>=\<close> is stored as that key's value; otherwise a token with exactly one
  \<open>=\<close> is cut there into key and value and stored; a token with more than one \<open>=\<close>
  raises \<open>ValueError\<close>; any other token is passed over. A key that no token names keeps
  its default. The line
  \<open>frame=10 fps=25.0 q=-1.0 size=1024kB time=00:00:01.00 bitrate=N/A speed=1.0x\<close>
  followed by a space and the carriage return parses to frame 10, fps 25.0, q -1.0, size
  1024kB, time 00:00:01.00, bitrate N/A, speed 1.0x; followed by the carriage return
  alone, it parses to the same with the carriage return inside the value of speed.
\<close>

theorem C6_get_status_tokens:
  "(\<forall>t\<in>set (parts line). t \<noteq> [] \<and> CHR '' '' \<notin> set t)
   \<and> concat (parts line) = filter (\<lambda>x. x \<noteq> CHR '' '') line
   \<and> get_status (Inr line) = scan_tokens (parts line) ''-'' default_stats
   \<and> (\<forall>st k. get_status (Inr line) = Inr st \<and>
         (\<forall>t\<in>set (parts line). k \<noteq> butlast t \<and> k \<noteq> fst (cut_at CHR ''='' t))
         \<longrightarrow> map_of st k = map_of default_stats k)
   \<and> get_status
        (Inr (''frame=10 fps=25.0 q=-1.0 size=1024kB time=00:00:01.00 bitrate=N/A speed=1.0x ''
              @ [CHR 0x0D])) =
        Inr [(''frame'', SStr ''10''), (''fps'', SStr ''25.0''), (''q'', SStr ''-1.0''),
             (''size'', SStr ''1024kB''), (''time'', SStr ''00:00:01.00''),
             (''bitrate'', SStr ''N/A''), (''speed'', SStr ''1.0x'')]
   \<and> get_status
        (Inr (''frame=10 fps=25.0 q=-1.0 size=1024kB time=00:00:01.00 bitrate=N/A speed=1.0x''
              @ [CHR 0x0D])) =
        Inr [(''frame'', SStr ''10''), (''fps'', SStr ''25.0''), (''q'', SStr ''-1.0''),
             (''size'', SStr ''1024kB''), (''time'', SStr ''00:00:01.00''),
             (''bitrate'', SStr ''N/A''), (''speed'', SStr (''1.0x'' @ [CHR 0x0D]))]"
proof (intro conjI allI impI ballI)
  fix t assume "t \<in> set (parts line)"
  then show "t \<noteq> []" and "CHR '' '' \<notin> set t"
    by (simp_all add: parts_tokens)
next
  show "concat (parts line) = filter (\<lambda>x. x \<noteq> CHR '' '') line"
    by (rule concat_parts)
next
  show "get_status (Inr line) = scan_tokens (parts line) ''-'' default_stats"
    by (rule get_status_scan)
next
  fix st k
  assume a: "get_status (Inr line) = Inr st \<and>
     (\<forall>t\<in>set (parts line). k \<noteq> butlast t \<and> k \<noteq> fst (cut_at CHR ''='' t))"
  then have "scan_tokens (parts line) ''-'' default_stats = Inr st"
    by (simp add: get_status_scan)
  then show "map_of st k = map_of default_stats k"
    by (rule scan_tokens_keeps) (use a in simp_all)
next
  show "get_status
        (Inr (''frame=10 fps=25.0 q=-1.0 size=1024kB time=00:00:01.00 bitrate=N/A speed=1.0x ''
              @ [CHR 0x0D])) =
        Inr [(''frame'', SStr ''10''), (''fps'', SStr ''25.0''), (''q'', SStr ''-1.0''),
             (''size'', SStr ''1024kB''), (''time'', SStr ''00:00:01.00''),
             (''bitrate'', SStr ''N/A''), (''speed'', SStr ''1.0x'')]"
    by (rule line_spaced)
next
  show "get_status
        (Inr (''frame=10 fps=25.0 q=-1.0 size=1024kB time=00:00:01.00 bitrate=N/A speed=1.0x''
              @ [CHR 0x0D])) =
        Inr [(''frame'', SStr ''10''), (''fps'', SStr ''25.0''), (''q'', SStr ''-1.0''),
             (''size'', SStr ''1024kB''), (''time'', SStr ''00:00:01.00''),
             (''bitrate'', SStr ''N/A''), (''speed'', SStr (''1.0x'' @ [CHR 0x0D]))]"
    by (rule line_unspaced)
qed

theorem C6_get_status_tokens_witness:
  "parts ''foo bar=1 frame= 7'' = [''foo'', ''bar=1'', ''frame='', ''7'']
   \<and> get_status (Inr ''foo bar=1 frame= 7'') =
       Inr [(''frame'', SStr ''7''), (''fps'', SInt 0), (''q'', SInt 0), (''size'', SStr ''0kB''),
            (''time'', SStr ''00:00:00.00''), (''bitrate'', SStr ''N/A''),
            (''speed'', SStr ''N/A''), (''bar'', SStr ''1'')]
   \<and> map_of [(''frame'', SStr ''7''), (''fps'', SInt 0), (''q'', SInt 0), (''size'', SStr ''0kB''),
            (''time'', SStr ''00:00:00.00''), (''bitrate'', SStr ''N/A''),
            (''speed'', SStr ''N/A''), (''bar'', SStr ''1'')] ''time'' =
       map_of default_stats ''time''"
proof -
  have p: "parts ''foo bar=1 frame= 7'' = [''foo'', ''bar=1'', ''frame='', ''7'']"
    by (simp add: parts_def)
  have s: "scan_tokens [''foo'', ''bar=1'', ''frame='', ''7''] ''-'' default_stats =
       Inr [(''frame'', SStr ''7''), (''fps'', SInt 0), (''q'', SInt 0), (''size'', SStr ''0kB''),
            (''time'', SStr ''00:00:00.00''), (''bitrate'', SStr ''N/A''),
            (''speed'', SStr ''N/A''), (''bar'', SStr ''1'')]"
    by (simp add: default_stats_def cut_at_def)
  have d: "map_of default_stats ''time'' = Some (SStr ''00:00:00.00'')"
    by (simp add: default_stats_def)
  from C6_get_status_tokens [of "''foo bar=1 frame= 7''"] p s d show ?thesis
    by simp
qed

theorem C6_example_line_counterexample:
  "get_status
     (Inr (''frame=10 fps=25.0 q=-1.0 size=1024kB time=00:00:01.00 bitrate=N/A speed=1.0x''
           @ [CHR 0x0D])) =
     Inr [(''frame'', SStr ''10''), (''fps'', SStr ''25.0''), (''q'', SStr ''-1.0''),
          (''size'', SStr ''1024kB''), (''time'', SStr ''00:00:01.00''),
          (''bitrate'', SStr ''N/A''), (''speed'', SStr (''1.0x'' @ [CHR 0x0D]))]
   \<and> get_status
     (Inr (''frame=10 fps=25.0 q=-1.0 size=1024kB time=00:00:01.00 bitrate=N/A speed=1.0x''
           @ [CHR 0x0D])) \<noteq>
     Inr [(''frame'', SStr ''10''), (''fps'', SStr ''25.0''), (''q'', SStr ''-1.0''),
          (''size'', SStr ''1024kB''), (''time'', SStr ''00:00:01.00''),
          (''bitrate'', SStr ''N/A''), (''speed'', SStr ''1.0x'')]"
  by (simp only: line_unspaced) simp

text \<open>
  C10. \<^verbatim>\<open>print_status\<close> always returns, and raises nothing: it returns \<open>True\<close> exactly
  when \<^verbatim>\<open>get_status\<close> produces a status record, and \<open>False\<close> whenever \<^verbatim>\<open>get_status\<close>
  raises, whatever the exception. \<^verbatim>\<open>get_status\<close> raises what the read raises (at the end
  of the recorder's output, \<open>IncompleteReadError\<close>), and it raises \<open>ValueError\<close> on a line
  whose first token holds two or more \<open>=\<close>.
\<close>

theorem C10_print_status_never_raises:
  "(\<exists>b out'. print_status rd out = Inr (b, out'))
   \<and> ((\<exists>out'. print_status rd out = Inr (True, out')) \<longleftrightarrow> (\<exists>st. get_status rd = Inr st))
   \<and> (\<forall>e. get_status rd = Inl e \<longrightarrow> print_status rd out = Inr (False, endl out))
   \<and> (\<forall>e. get_status (Inl e) = Inl e)
   \<and> (\<forall>line t ts. parts line = t # ts \<and> count_list t CHR ''='' > 1
         \<longrightarrow> get_status (Inr line) = Inl ValueError)"
proof (intro conjI allI impI)
  show "\<exists>b out'. print_status rd out = Inr (b, out')"
    by (cases "print_status_try rd out") (auto simp add: print_status_def)
next
  have "(\<exists>out'. print_status rd out = Inr (True, out')) \<longleftrightarrow>
        (\<exists>out'. print_status_try rd out = Inr out')"
    by (cases "print_status_try rd out") (simp_all add: print_status_def)
  then show "(\<exists>out'. print_status rd out = Inr (True, out')) \<longleftrightarrow> (\<exists>st. get_status rd = Inr st)"
    by (simp only: print_status_try_ok)
next
  fix e assume "get_status rd = Inl e"
  then have "print_status_try rd out = Inl e" by (rule print_status_try_error)
  then show "print_status rd out = Inr (False, endl out)"
    by (simp add: print_status_def)
next
  fix e show "get_status (Inl e) = Inl e"
    by (simp add: get_status_def bind_err_def)
next
  fix line t ts
  assume "parts line = t # ts \<and> count_list t CHR ''='' > 1"
  then show "get_status (Inr line) = Inl ValueError"
    by (simp add: get_status_two_equals)
qed

theorem C10_print_status_witness:
  "parts ''a=b=c'' = [''a=b=c''] \<and> count_list ''a=b=c'' CHR ''='' > 1
   \<and> get_status (Inr ''a=b=c'') = Inl ValueError
   \<and> print_status (Inr ''a=b=c'') [] = Inr (False, [[LStr []]])
   \<and> get_status (Inl IncompleteReadError) = Inl IncompleteReadError
   \<and> print_status (Inl IncompleteReadError) [] = Inr (False, [[LStr []]])
   \<and> get_status (Inr ''time=00:00:02.00 size=7kB'') =
       Inr [(''frame'', SInt 0), (''fps'', SInt 0), (''q'', SInt 0), (''size'', SStr ''7kB''),
            (''time'', SStr ''00:00:02.00''), (''bitrate'', SStr ''N/A''),
            (''speed'', SStr ''N/A'')]
   \<and> (\<exists>out'. print_status (Inr ''time=00:00:02.00 size=7kB'') [] = Inr (True, out'))"
proof -
  have p: "parts ''a=b=c'' = [''a=b=c'']" by (simp add: parts_def)
  have c: "count_list ''a=b=c'' CHR ''='' > 1" by simp
  have e: "endl [] = [[LStr []]]" by (simp add: endl_def loglevel_def)
  have g: "get_status (Inr ''time=00:00:02.00 size=7kB'') =
       Inr [(''frame'', SInt 0), (''fps'', SInt 0), (''q'', SInt 0), (''size'', SStr ''7kB''),
            (''time'', SStr ''00:00:02.00''), (''bitrate'', SStr ''N/A''),
            (''speed'', SStr ''N/A'')]"
    by (simp add: get_status_def parts_def bind_err_def status_step_def default_stats_def)
  note a = C10_print_status_never_raises [of "Inr ''a=b=c''" "[]"]
  note b = C10_print_status_never_raises [of "Inl IncompleteReadError" "[]"]
  note d = C10_print_status_never_raises [of "Inr ''time=00:00:02.00 size=7kB''" "[]"]
  from a p c have 1: "get_status (Inr ''a=b=c'') = Inl ValueError" by blast
  with a have 2: "print_status (Inr ''a=b=c'') [] = Inr (False, endl [])" by blast
  from b have 3: "get_status (Inl IncompleteReadError) = Inl IncompleteReadError" by blast
  with b have 4: "print_status (Inl IncompleteReadError) [] = Inr (False, endl [])" by blast
  from d g have 5: "\<exists>out'. print_status (Inr ''time=00:00:02.00 size=7kB'') [] = Inr (True, out')"
    by blast
  from p c 1 2 3 4 e g 5 show ?thesis by simp
qed

section \<open>Properties of the control channel\<close>

lemma trace_silent: "trace args out = out"
  by (simp add: trace_def loglevel_def LOGLEVEL_INFO_def LOGLEVEL_TRACE_def)

lemma debug_silent: "debug args out = out"
  by (simp add: debug_def loglevel_def LOGLEVEL_INFO_def LOGLEVEL_DEBUG_def)

lemma not_awaited_fold: "fold (\<lambda>comment. not_awaited (queue_put comment)) items s = s"
  by (induction items) (simp_all add: not_awaited_def)

lemma awaited_fold:
  "comments (fold (\<lambda>comment. awaited (queue_put comment)) items s) = comments s @ items"
  by (induction items arbitrary: s) (simp_all add: awaited_def queue_put_def)



































lemma send_interleaved_with_heartbeat:
  "run [2, 1, 2]
     (open_session [\<lparr>m_name = ''_response_'', m_arguments = JStr ''one'', m_id = 1\<rparr>],
      session_tasks 1) =
   Some (\<lparr>msg_id = 2, msg_responses = [], is_ready = False, comments = [],
          inbox = [\<lparr>m_name = ''_response_'', m_arguments = JStr ''one'', m_id = 1\<rparr>],
          outbox = [\<lparr>m_name = ''get_hls_information'', m_arguments = JObj [], m_id = 1\<rparr>,
                    \<lparr>m_name = ''heartbeat'', m_arguments = JObj [], m_id = 2\<rparr>],
          console = []\<rparr>,
         [Dispatch_start, Heartbeat_sending, Call_receiving 1 2])"
  by (simp add: open_session_def session_tasks_def sched_step_def task_step_def
      heartbeat_pass_def send_message_begin_def send_message_end_def call_resume_def
      receive_check_def trace_silent debug_silent Let_def)

lemma dispatch_control_disconnection:
  assumes "inbox s = msg # rest" and "m_name msg = ''control_disconnection''"
    and "json_getitem (m_arguments msg) ''code'' = Inr code"
  shows "task_step s Dispatch_receiving =
           Some (s\<lparr>inbox := rest\<rparr>,
                 if code = JNum 4101 then Dispatch_failed PaidProgramDisconnection
                 else if code = JNum 4512 then Dispatch_failed MultipleConnectionError
                 else Dispatch_receiving)"
  using assms
  by (simp add: task_step_def receive_frame_any_def handle_incoming_def bind_err_def
      trace_silent Let_def)

text \<open>
  C4, in the form that holds of the code. When the dispatch loop receives a frame named
  \<open>control_disconnection\<close> whose arguments hold a code, it raises
  \<open>PaidProgramDisconnection\<close> when the code is 4101 and \<open>MultipleConnectionError\<close> when
  it is 4512, both subclasses of \<open>ServerDisconnection\<close>, and the loop has ended; for
  every other code the loop goes on to wait for the next frame and the session is as it
  was but for the frame taken from the socket: nothing is stored, and nothing is printed.
\<close>

theorem C4_control_disconnection_codes:
  assumes "inbox s = msg # rest" and "m_name msg = ''control_disconnection''"
    and "json_getitem (m_arguments msg) ''code'' = Inr code"
  shows "(code = JNum 4101 \<longrightarrow>
            task_step s Dispatch_receiving =
              Some (s\<lparr>inbox := rest\<rparr>, Dispatch_failed PaidProgramDisconnection))
    \<and> (code = JNum 4512 \<longrightarrow>
            task_step s Dispatch_receiving =
              Some (s\<lparr>inbox := rest\<rparr>, Dispatch_failed MultipleConnectionError))
    \<and> (code \<noteq> JNum 4101 \<and> code \<noteq> JNum 4512 \<longrightarrow>
            task_step s Dispatch_receiving = Some (s\<lparr>inbox := rest\<rparr>, Dispatch_receiving))
    \<and> is_ServerDisconnection PaidProgramDisconnection
    \<and> is_ServerDisconnection MultipleConnectionError
    \<and> PaidProgramDisconnection \<noteq> MultipleConnectionError
    \<and> (\<forall>s' e. task_step s' (Dispatch_failed e) = None)
    \<and> console (s\<lparr>inbox := rest\<rparr>) = console s"
  using dispatch_control_disconnection [OF assms]
  by (simp add: task_step_def)

theorem C4_control_disconnection_witness:
  "inbox (open_session
            [\<lparr>m_name = ''control_disconnection'', m_arguments = JObj [(''code'', JNum 4101)],
              m_id = 0\<rparr>]) =
     [\<lparr>m_name = ''control_disconnection'', m_arguments = JObj [(''code'', JNum 4101)], m_id = 0\<rparr>]
   \<and> json_getitem (JObj [(''code'', JNum 4101)]) ''code'' = Inr (JNum 4101)
   \<and> task_step
       (open_session
          [\<lparr>m_name = ''control_disconnection'', m_arguments = JObj [(''code'', JNum 4101)],
            m_id = 0\<rparr>])
       Dispatch_receiving =
     Some (open_session [], Dispatch_failed PaidProgramDisconnection)
   \<and> task_step
       (open_session
          [\<lparr>m_name = ''control_disconnection'', m_arguments = JObj [(''code'', JNum 4512)],
            m_id = 0\<rparr>])
       Dispatch_receiving =
     Some (open_session [], Dispatch_failed MultipleConnectionError)
   \<and> task_step
       (open_session
          [\<lparr>m_name = ''control_disconnection'', m_arguments = JObj [(''code'', JStr ''4101'')],
            m_id = 0\<rparr>])
       Dispatch_receiving =
     Some (open_session [], Dispatch_receiving)
   \<and> is_ServerDisconnection PaidProgramDisconnection
   \<and> task_step (open_session []) (Dispatch_failed PaidProgramDisconnection) = None"
proof -
  let ?msg = "\<lambda>c. \<lparr>m_name = ''control_disconnection'', m_arguments = JObj [(''code'', c)],
               m_id = 0\<rparr>"
  have i: "inbox (open_session [?msg c]) = ?msg c # []" for c by (simp add: open_session_def)
  have n: "m_name (?msg c) = ''control_disconnection''" for c by simp
  have c: "json_getitem (m_arguments (?msg c)) ''code'' = Inr c" for c
    by (simp add: json_getitem_def dict_get_def)
  have o: "(open_session [?msg c])\<lparr>inbox := []\<rparr> = open_session []" for c
    by (simp add: open_session_def)
  from C4_control_disconnection_codes [OF i n c, of "JNum 4101"]
       C4_control_disconnection_codes [OF i n c, of "JNum 4512"]
       C4_control_disconnection_codes [OF i n c, of "JStr ''4101''"]
       i [of "JNum 4101"] c [of "JNum 4101"] o
  show ?thesis
    by simp
qed

theorem C4_unknown_code_not_logged_counterexample:
  "task_step
     (open_session
        [\<lparr>m_name = ''control_disconnection'', m_arguments = JObj [(''code'', JNum 7)],
          m_id = 0\<rparr>])
     Dispatch_receiving =
   Some (\<lparr>msg_id = 0, msg_responses = [], is_ready = False, comments = [], inbox = [],
          outbox = [], console = []\<rparr>,
         Dispatch_receiving)"
  by (simp add: open_session_def task_step_def receive_frame_any_def handle_incoming_def
      bind_err_def json_getitem_def dict_get_def trace_silent Let_def)

lemma handle_incoming_comments:
  "handle_incoming msg s = Inr s' \<Longrightarrow> comments s' = comments s"
  by (auto simp add: handle_incoming_def bind_err_def not_awaited_fold
      split: if_splits sum.splits)

text \<open>
  C5, as the code has it. The dispatch loop receives a frame named \<open>comment\<close> whose
  arguments hold the two comments \<open>hi\<close> and \<open>there\<close>, on a session that has just been
  opened: the loop goes on, and the queue of comments is empty as before. Line 129 calls
  the coroutine function \<^verbatim>\<open>put\<close> and does not await the result, so no entry reaches the
  queue.
\<close>

theorem C5_comments_not_enqueued:
  "task_step
     (open_session
        [\<lparr>m_name = ''comment'',
          m_arguments = JObj [(''comments'', JArr [JStr ''hi'', JStr ''there''])],
          m_id = 0\<rparr>])
     Dispatch_receiving =
   Some (\<lparr>msg_id = 0, msg_responses = [], is_ready = False, comments = [], inbox = [],
          outbox = [], console = []\<rparr>,
         Dispatch_receiving)"
  by (simp add: open_session_def task_step_def receive_frame_any_def handle_incoming_def
      bind_err_def json_getitem_def json_iter_def dict_get_def not_awaited_def
      trace_silent Let_def)

end
